theory Spec2Isabelle
  imports Main "HOL-Library.Word" "HOL-Library.Sublist"
begin

section \<open>Data model of \<open>internal/tester/data.go\<close>\<close>

text \<open>
  Block indices are Go \<open>int64\<close> values: 64-bit words whose subtraction wraps around and
  whose comparisons (\<open><\<close>, \<open><=\<close>) are signed, read through \<open>sint\<close>.
\<close>

type_synonym int64 = "64 word"

record BlockIdentifier =
  Index :: int64
  Hash :: string

record AccountCurrency =
  Account :: string
  Currency :: string

text \<open>
  Go \<open>error\<close> values. \<open>Canceled\<close> is \<open>context.Canceled\<close>, \<open>ErrHeadBlockNotFound\<close> is
  \<open>storage.ErrHeadBlockNotFound\<close>, \<open>New s\<close> is \<open>errors.New(s)\<close> (also used for an error
  returned by a collaborator), \<open>Wrapf e s\<close> is \<open>fmt.Errorf("%w: s", e)\<close> and
  \<open>NextWindowErr a b\<close> is
  \<open>fmt.Errorf("Next window to check has start index %d <= end index %d", a, b)\<close>.
  A nilable \<open>error\<close> is an \<open>error option\<close>, \<open>None\<close> being \<open>nil\<close>.
\<close>

datatype error =
    Canceled
  | ErrHeadBlockNotFound
  | New string
  | Wrapf error string
  | NextWindowErr int64 int64

definition InactiveFailureLookbackWindow :: int64 where
  "InactiveFailureLookbackWindow = 250"

text \<open>The fields of \<open>config.Data\<close> that the file reads.\<close>

record DataConfiguration =
  ActiveReconciliationConcurrency :: "64 word"
  InactiveReconciliationConcurrency :: "64 word"
  InactiveReconciliationFrequency :: "64 word"
  HistoricalBalanceDisabled :: bool
  IgnoreReconciliationError :: bool
  LogReconciliations :: bool
  BootstrapBalances :: string
  InterestingAccounts :: string
  ExemptAccounts :: string

text \<open>
  \<open>processor.ReconcilerHandler\<close>: the halt flag given to \<open>NewReconcilerHandler\<close> and the
  failures the handler has recorded (nil pointers are \<open>None\<close>).
\<close>

record ReconcilerHandler =
  haltOnReconciliationError :: bool
  InactiveFailure :: "AccountCurrency option"
  InactiveFailureBlock :: "BlockIdentifier option"
  ActiveFailureBlock :: "BlockIdentifier option"

definition NewReconcilerHandler :: "bool \<Rightarrow> ReconcilerHandler" where
  "NewReconcilerHandler halt =
     \<lparr>haltOnReconciliationError = halt, InactiveFailure = None,
      InactiveFailureBlock = None, ActiveFailureBlock = None\<rparr>"

text \<open>
  The functional options of the SDK's \<open>reconciler.New\<close>: each one sets one setting of the
  reconciler, and \<open>New\<close> applies them in order to the SDK's defaults. The defaults are not
  part of this repository and stay a parameter.
\<close>

datatype reconciler_option =
    WithActiveConcurrency int64
  | WithInactiveConcurrency int64
  | WithLookupBalanceByBlock bool
  | WithInterestingAccounts "AccountCurrency option list"
  | WithSeenAccounts "AccountCurrency option list"
  | WithDebugLogging bool
  | WithInactiveFrequency int64

record Reconciler =
  handler :: ReconcilerHandler
  activeConcurrency :: int64
  inactiveConcurrency :: int64
  lookupBalanceByBlock :: bool
  interestingAccounts :: "AccountCurrency option list"
  seenAccounts :: "AccountCurrency option list"
  debugLogging :: bool
  inactiveFrequency :: int64

fun apply_option :: "Reconciler \<Rightarrow> reconciler_option \<Rightarrow> Reconciler" where
  "apply_option r (WithActiveConcurrency n) = r\<lparr>activeConcurrency := n\<rparr>"
| "apply_option r (WithInactiveConcurrency n) = r\<lparr>inactiveConcurrency := n\<rparr>"
| "apply_option r (WithLookupBalanceByBlock b) = r\<lparr>lookupBalanceByBlock := b\<rparr>"
| "apply_option r (WithInterestingAccounts as) = r\<lparr>interestingAccounts := as\<rparr>"
| "apply_option r (WithSeenAccounts as) = r\<lparr>seenAccounts := as\<rparr>"
| "apply_option r (WithDebugLogging b) = r\<lparr>debugLogging := b\<rparr>"
| "apply_option r (WithInactiveFrequency n) = r\<lparr>inactiveFrequency := n\<rparr>"

definition reconciler_New ::
  "Reconciler \<Rightarrow> ReconcilerHandler \<Rightarrow> reconciler_option list \<Rightarrow> Reconciler" where
  "reconciler_New defaults h opts = foldl apply_option (defaults\<lparr>handler := h\<rparr>) opts"

datatype counter = ActiveReconciliationCounter | InactiveReconciliationCounter

text \<open>
  \<open>DataTester\<close>. \<open>counterStorage\<close> is what \<open>counterStorage.Get\<close> returns for a counter (an
  error, or the \<open>big.Int\<close> value as an unbounded integer); \<open>signalReceived\<close> is the value of
  \<open>*t.signalReceived\<close> when \<open>HandleErr\<close> reads it. \<open>config\<close>, \<open>reconcilerHandler\<close> and
  \<open>genesisBlock\<close> are the values behind the tester's pointers, which the functions below
  dereference without a nil test.
\<close>

record DataTester =
  config :: DataConfiguration
  reconciler :: Reconciler
  counterStorage :: "counter \<Rightarrow> error + int"
  reconcilerHandler :: ReconcilerHandler
  reconcile :: bool
  signalReceived :: bool
  genesisBlock :: BlockIdentifier

section \<open>\<open>HandleErr\<close>\<close>

text \<open>
  What \<open>HandleErr\<close> prints, and how it ends: \<open>Exit c ms\<close> is \<open>os.Exit(c)\<close> after printing
  \<open>ms\<close>, \<open>Return ms\<close> is a normal return to the caller, which then starts
  \<open>FindMissingOps\<close>. The model also returns the reads of the counter storage that the call
  performed, each with what \<open>counterStorage.Get\<close> answered.
\<close>

datatype message =
    CheckHalted
  | CheckSucceeded
  | CheckSucceededNoReconciliations
  | CheckFailed error
  | EnableLookupBalanceByBlock

datatype handled = Exit nat "message list" | Return "message list"

type_synonym counter_read = "counter \<times> (error + int)"

definition counters_checked :: "DataTester \<Rightarrow> counter_read list \<times> handled" where
  "counters_checked t =
     (let active = counterStorage t ActiveReconciliationCounter;
          inactive = counterStorage t InactiveReconciliationCounter
      in ([(ActiveReconciliationCounter, active), (InactiveReconciliationCounter, inactive)],
          (case active of
             Inl activeErr \<Rightarrow> Exit 0 [CheckSucceeded]
           | Inr activeReconciliations \<Rightarrow>
               (case inactive of
                  Inl inactiveErr \<Rightarrow> Exit 0 [CheckSucceeded]
                | Inr inactiveReconciliations \<Rightarrow>
                    if activeReconciliations + inactiveReconciliations \<noteq> 0
                    then Exit 0 [CheckSucceeded]
                    else Exit 0 [CheckSucceededNoReconciliations]))))"

definition HandleErr :: "DataTester \<Rightarrow> error option \<Rightarrow> counter_read list \<times> handled" where
  "HandleErr t err =
     (if signalReceived t then ([], Exit 1 [CheckHalted])
      else case err of
        None \<Rightarrow> counters_checked t
      | Some e \<Rightarrow>
          if e = Canceled then counters_checked t
          else if InactiveFailure (reconcilerHandler t) = None
            then ([], Exit 1 [CheckFailed e])
          else if HistoricalBalanceDisabled (config t)
            then ([], Exit 1 [CheckFailed e, EnableLookupBalanceByBlock])
          else ([], Return [CheckFailed e]))"

section \<open>\<open>recursiveOpSearch\<close> and \<open>FindMissingOps\<close>\<close>

text \<open>
  One call of \<open>recursiveOpSearch\<close> talks to collaborators that are not part of the file.
  What they answer during the call at recursion depth \<open>n\<close> is the \<open>attempt\<close> record
  \<open>w n\<close>: the error of \<open>utils.CreateTempDir\<close>, of \<open>storage.NewBadgerStorage\<close>, the joint
  result of \<open>g.Wait()\<close>, the error of \<open>localStore.Close\<close>, the value of
  \<open>*t.signalReceived\<close> read after closing, and the \<open>ActiveFailureBlock\<close> of the call's own
  reconciler handler after the run.
\<close>

record attempt =
  tmpDirErr :: "error option"
  openErr :: "error option"
  waitErr :: "error option"
  closeErr :: "error option"
  signalSet :: bool
  activeFailure :: "BlockIdentifier option"

text \<open>
  The observable steps of a search, in the order they happen. The number is the recursion
  depth of the call that performs the step.
\<close>

datatype event =
    CancelRegistered nat
  | TempDirCreated nat
  | StorageOpened nat
  | ReconcilerNew nat ReconcilerHandler "reconciler_option list"
  | SyncAndReconcile nat int64 int64
  | StorageClosed nat
  | StorageCloseFailed nat
  | NowSearching nat int64 int64
  | TempDirRemoved nat

text \<open>
  The recursion may not end, so the model takes fuel: one unit per call. The result is the
  trace of steps performed so far and \<open>Some\<close> of the returned pair (block or error), or
  \<open>None\<close> when the fuel ran out before the call returned. \<open>defer utils.RemoveTempDir\<close>
  runs when the call returns, that is after the recursive call has returned.
\<close>

fun recursiveOpSearch ::
  "nat \<Rightarrow> DataTester \<Rightarrow> (nat \<Rightarrow> attempt) \<Rightarrow> nat \<Rightarrow> AccountCurrency option \<Rightarrow> int64 \<Rightarrow> int64
    \<Rightarrow> event list \<times> (error + BlockIdentifier) option" where
  "recursiveOpSearch 0 t w n accountCurrency startIndex endIndex = ([], None)"
| "recursiveOpSearch (Suc fuel) t w n accountCurrency startIndex endIndex =
     (case tmpDirErr (w n) of
        Some err \<Rightarrow>
          ([CancelRegistered n],
           Some (Inl (Wrapf err ''unable to create temporary directory'')))
      | None \<Rightarrow>
     (case openErr (w n) of
        Some err \<Rightarrow>
          ([CancelRegistered n, TempDirCreated n, TempDirRemoved n],
           Some (Inl (Wrapf err ''unable to initialize database'')))
      | None \<Rightarrow>
     (let ran = [CancelRegistered n, TempDirCreated n, StorageOpened n,
                 ReconcilerNew n (NewReconcilerHandler True)
                   [WithActiveConcurrency 1, WithInactiveConcurrency 0,
                    WithLookupBalanceByBlock (\<not> HistoricalBalanceDisabled (config t)),
                    WithInterestingAccounts [accountCurrency]],
                 SyncAndReconcile n startIndex endIndex]
      in case closeErr (w n) of
        Some storageErr \<Rightarrow>
          (ran @ [StorageCloseFailed n, TempDirRemoved n],
           Some (Inl (Wrapf storageErr ''unable to close database'')))
      | None \<Rightarrow>
          if signalSet (w n) then
            (ran @ [StorageClosed n, TempDirRemoved n],
             Some (Inl (New ''Search for block with missing ops halted'')))
          else if waitErr (w n) = None \<or> waitErr (w n) = Some Canceled then
            (let newStart =
                   (if sint (startIndex - InactiveFailureLookbackWindow)
                         < sint (Index (genesisBlock t))
                    then Index (genesisBlock t)
                    else startIndex - InactiveFailureLookbackWindow);
                 newEnd = endIndex - InactiveFailureLookbackWindow
             in if sint newEnd \<le> sint newStart then
                  (ran @ [StorageClosed n, TempDirRemoved n],
                   Some (Inl (NextWindowErr newStart newEnd)))
                else
                  (case recursiveOpSearch fuel t w (Suc n) accountCurrency
                          (startIndex - InactiveFailureLookbackWindow)
                          (endIndex - InactiveFailureLookbackWindow) of
                     (tr, None) \<Rightarrow>
                       (ran @ [StorageClosed n, NowSearching n newStart newEnd] @ tr, None)
                   | (tr, Some res) \<Rightarrow>
                       (ran @ [StorageClosed n, NowSearching n newStart newEnd] @ tr
                          @ [TempDirRemoved n],
                        Some res)))
          else
            (case activeFailure (w n) of
               None \<Rightarrow>
                 (ran @ [StorageClosed n, TempDirRemoved n],
                  Some (Inl (New ''unable to find missing ops'')))
             | Some block \<Rightarrow>
                 (ran @ [StorageClosed n, TempDirRemoved n], Some (Inr block))))))"

text \<open>
  \<open>FindMissingOps\<close>: the first window is the \<open>InactiveFailureLookbackWindow\<close> blocks below
  the block of the inactive failure. Reading \<open>Index\<close> of a nil \<open>InactiveFailureBlock\<close>, or
  \<open>Account\<close> of a nil \<open>InactiveFailure\<close>, is a nil dereference: the Go runtime panics.
\<close>

datatype found =
    Panic
  | OutOfFuel
  | CouldNotFind error
  | MissingOps AccountCurrency BlockIdentifier

definition FindMissingOps ::
  "nat \<Rightarrow> DataTester \<Rightarrow> (nat \<Rightarrow> attempt) \<Rightarrow> event list \<times> found" where
  "FindMissingOps fuel t w =
     (case InactiveFailureBlock (reconcilerHandler t) of
        None \<Rightarrow> ([], Panic)
      | Some failureBlock \<Rightarrow>
          (case recursiveOpSearch fuel t w 0 (InactiveFailure (reconcilerHandler t))
                  (Index failureBlock - InactiveFailureLookbackWindow) (Index failureBlock) of
             (tr, None) \<Rightarrow> (tr, OutOfFuel)
           | (tr, Some (Inl err)) \<Rightarrow> (tr, CouldNotFind err)
           | (tr, Some (Inr badBlock)) \<Rightarrow>
               (case InactiveFailure (reconcilerHandler t) of
                  None \<Rightarrow> (tr, Panic)
                | Some failure \<Rightarrow> (tr, MissingOps failure badBlock))))"

section \<open>\<open>InitializeData\<close>\<close>

text \<open>
  What the collaborators of \<open>InitializeData\<close> answer: \<open>utils.EnsurePathExists\<close>,
  \<open>storage.NewBadgerStorage\<close>, \<open>utils.LoadAndParse\<close> on the two account files,
  \<open>balanceStorage.GetAllAccountCurrency\<close>, the counter storage of the opened database,
  \<open>blockStorage.GetHeadBlockIdentifier\<close> and \<open>balanceStorage.BootstrapBalances\<close>.
\<close>

record collaborators =
  ensurePathExists :: "error option"
  newBadgerStorage :: "error option"
  parseExemptAccounts :: "error + AccountCurrency option list"
  parseInterestingAccounts :: "error + AccountCurrency option list"
  getAllAccountCurrency :: "error + AccountCurrency option list"
  counters :: "counter \<Rightarrow> error + int"
  getHeadBlockIdentifier :: "error + BlockIdentifier"
  bootstrapBalances :: "error option"

definition loadAccounts ::
  "string \<Rightarrow> (error + AccountCurrency option list) \<Rightarrow> error + AccountCurrency option list" where
  "loadAccounts filePath parsed =
     (if length filePath = 0 then Inr []
      else case parsed of
        Inl err \<Rightarrow> Inl (Wrapf err ''unable to open account file'')
      | Inr accounts \<Rightarrow> Inr accounts)"

text \<open>
  \<open>InitializeData\<close> has no error result. It ends in \<open>log.Fatalf\<close> (which exits the process
  with status 1), or returns \<open>nil\<close>, or returns the tester. The steps recorded are the call
  of \<open>BootstrapBalances\<close> and the line written with \<open>log.Println\<close>.
\<close>

datatype init_step = BootstrapBalancesCalled string | LogPrintln string

datatype initialized = LogFatalf error string | ReturnNil | ReturnTester DataTester

definition InitializeData ::
  "collaborators \<Rightarrow> Reconciler \<Rightarrow> DataConfiguration \<Rightarrow> BlockIdentifier \<Rightarrow> bool \<Rightarrow> bool
    \<Rightarrow> init_step list \<times> initialized" where
  "InitializeData env defaults cfg genesis reconcileFlag signal =
     (case ensurePathExists env of
        Some err \<Rightarrow> ([], LogFatalf err ''cannot populate path'')
      | None \<Rightarrow>
     (case newBadgerStorage env of
        Some err \<Rightarrow> ([], LogFatalf err ''unable to initialize database'')
      | None \<Rightarrow>
     (case loadAccounts (ExemptAccounts cfg) (parseExemptAccounts env) of
        Inl err \<Rightarrow> ([], LogFatalf err ''unable to load exempt accounts'')
      | Inr exemptAccounts \<Rightarrow>
     (case loadAccounts (InterestingAccounts cfg) (parseInterestingAccounts env) of
        Inl err \<Rightarrow> ([], LogFatalf err ''unable to load interesting accounts'')
      | Inr interesting \<Rightarrow>
     (case getAllAccountCurrency env of
        Inl err \<Rightarrow> ([], LogFatalf err ''unable to get previously seen accounts'')
      | Inr seen \<Rightarrow>
        (let h = NewReconcilerHandler (\<not> IgnoreReconciliationError cfg);
             r = reconciler_New defaults h
                   [WithActiveConcurrency (ActiveReconciliationConcurrency cfg),
                    WithInactiveConcurrency (InactiveReconciliationConcurrency cfg),
                    WithLookupBalanceByBlock (\<not> HistoricalBalanceDisabled cfg),
                    WithInterestingAccounts interesting,
                    WithSeenAccounts seen,
                    WithDebugLogging (LogReconciliations cfg),
                    WithInactiveFrequency (InactiveReconciliationFrequency cfg)];
             tester = \<lparr>config = cfg, reconciler = r, counterStorage = counters env,
                       reconcilerHandler = h, reconcile = reconcileFlag,
                       signalReceived = signal, genesisBlock = genesis\<rparr>
         in if length (BootstrapBalances cfg) > 0 then
              (case getHeadBlockIdentifier env of
                 Inl err \<Rightarrow>
                   (if err = ErrHeadBlockNotFound then
                      (case bootstrapBalances env of
                         Some err \<Rightarrow>
                           ([BootstrapBalancesCalled (BootstrapBalances cfg)],
                            LogFatalf err ''unable to bootstrap balances'')
                       | None \<Rightarrow>
                           ([BootstrapBalancesCalled (BootstrapBalances cfg)],
                            ReturnTester tester))
                    else
                      ([LogPrintln
                          ''Skipping balance bootstrapping because already started syncing''],
                       ReturnNil))
               | Inr head \<Rightarrow>
                   ([LogPrintln
                       ''Skipping balance bootstrapping because already started syncing''],
                    ReturnNil))
            else ([], ReturnTester tester)))))))"

section \<open>Resources held along a search\<close>

text \<open>
  The number of ephemeral storage instances that are open after a sequence of steps, and the
  number of temporary directories that exist. A close that failed leaves the instance
  counted as open.
\<close>

fun storage_delta :: "event \<Rightarrow> int" where
  "storage_delta (StorageOpened n) = 1"
| "storage_delta (StorageClosed n) = - 1"
| "storage_delta _ = 0"

fun tempdir_delta :: "event \<Rightarrow> int" where
  "tempdir_delta (TempDirCreated n) = 1"
| "tempdir_delta (TempDirRemoved n) = - 1"
| "tempdir_delta _ = 0"

definition open_storages :: "event list \<Rightarrow> int" where
  "open_storages tr = sum_list (map storage_delta tr)"

definition temp_dirs :: "event list \<Rightarrow> int" where
  "temp_dirs tr = sum_list (map tempdir_delta tr)"

fun depth :: "event \<Rightarrow> nat" where
  "depth (CancelRegistered n) = n"
| "depth (TempDirCreated n) = n"
| "depth (StorageOpened n) = n"
| "depth (ReconcilerNew n h opts) = n"
| "depth (SyncAndReconcile n a b) = n"
| "depth (StorageClosed n) = n"
| "depth (StorageCloseFailed n) = n"
| "depth (NowSearching n a b) = n"
| "depth (TempDirRemoved n) = n"

text \<open>The windows handed to the syncer, in the order they were attempted.\<close>

fun windows :: "event list \<Rightarrow> (int \<times> int) list" where
  "windows [] = []"
| "windows (SyncAndReconcile n a b # tr) = (sint a, sint b) # windows tr"
| "windows (ev # tr) = windows tr"

text \<open>
  An attempt completes cleanly when its storage was provisioned and closed without error,
  no abort signal was seen, and the joint result is nil or \<open>context.Canceled\<close>.
\<close>

definition completes_cleanly :: "attempt \<Rightarrow> bool" where
  "completes_cleanly a \<longleftrightarrow>
     tmpDirErr a = None \<and> openErr a = None \<and> closeErr a = None \<and> \<not> signalSet a \<and>
     (waitErr a = None \<or> waitErr a = Some Canceled)"

text \<open>
  Whether the running count of a resource, started at \<open>c\<close> and changed by \<open>d\<close> at each
  step, stays between 0 and \<open>hi\<close> all along a trace.
\<close>

fun stays_within :: "(event \<Rightarrow> int) \<Rightarrow> int \<Rightarrow> int \<Rightarrow> event list \<Rightarrow> bool" where
  "stays_within d hi c [] \<longleftrightarrow> 0 \<le> c \<and> c \<le> hi"
| "stays_within d hi c (ev # tr) \<longleftrightarrow> 0 \<le> c \<and> c \<le> hi \<and> stays_within d hi (c + d ev) tr"

section \<open>A measure for the sequence of windows\<close>

text \<open>
  \<open>endIndex\<close> falls by 250 at each window and wraps around below the least \<open>int64\<close>.
  \<open>offset\<close> is the distance of an index from the least \<open>int64\<close>. Each wrap-around moves
  the remainder of the offset modulo 250 by \<open>2 ^ 64 mod 250 = 116\<close>; \<open>wraps_left\<close> counts
  the wrap-arounds that can still happen before the offset lands on 0 or 1.
\<close>

definition offset :: "int64 \<Rightarrow> int" where
  "offset x = sint x + 2 ^ 63"

definition wraps_left :: "int \<Rightarrow> int" where
  "wraps_left u = (if u < 2 then 125 else (28 * ((u mod 250) div 2)) mod 125)"

definition search_measure :: "int64 \<Rightarrow> nat" where
  "search_measure x = nat (wraps_left (offset x) * 2 ^ 64 + offset x)"

text \<open>
  A window of the width \<open>FindMissingOps\<close> starts with, \<open>[endIndex - 250, endIndex]\<close>, needs
  less: its end wraps around at most once, at the first step, and then falls until the
  start of the next window wraps around.
\<close>

definition shaped_measure :: "int64 \<Rightarrow> nat" where
  "shaped_measure x = nat ((if offset x < 250 then 2 ^ 64 else 0) + offset x)"

section \<open>Concrete runs\<close>

definition example_data :: DataConfiguration where
  "example_data =
     \<lparr>ActiveReconciliationConcurrency = 8, InactiveReconciliationConcurrency = 4,
      InactiveReconciliationFrequency = 250, HistoricalBalanceDisabled = False,
      IgnoreReconciliationError = False, LogReconciliations = False,
      BootstrapBalances = ''bootstrap.json'', InterestingAccounts = [],
      ExemptAccounts = []\<rparr>"

definition sdk_defaults :: Reconciler where
  "sdk_defaults =
     \<lparr>handler = NewReconcilerHandler False, activeConcurrency = 8, inactiveConcurrency = 8,
      lookupBalanceByBlock = True, interestingAccounts = [], seenAccounts = [],
      debugLogging = False, inactiveFrequency = 200\<rparr>"

definition example_account :: AccountCurrency where
  "example_account = \<lparr>Account = ''addr1'', Currency = ''BTC''\<rparr>"

definition example_tester :: DataTester where
  "example_tester =
     \<lparr>config = example_data, reconciler = sdk_defaults,
      counterStorage = (\<lambda>c. Inr 0),
      reconcilerHandler =
        \<lparr>haltOnReconciliationError = True, InactiveFailure = Some example_account,
         InactiveFailureBlock = Some \<lparr>Index = 1000, Hash = ''b1000''\<rparr>,
         ActiveFailureBlock = None\<rparr>,
      reconcile = True, signalReceived = False,
      genesisBlock = \<lparr>Index = 0, Hash = ''genesis''\<rparr>\<rparr>"

definition clean_attempt :: attempt where
  "clean_attempt =
     \<lparr>tmpDirErr = None, openErr = None, waitErr = Some Canceled, closeErr = None,
      signalSet = False, activeFailure = None\<rparr>"

definition always_clean :: "nat \<Rightarrow> attempt" where
  "always_clean k = clean_attempt"

definition abort_during_second :: "nat \<Rightarrow> attempt" where
  "abort_during_second k =
     (if k = 1 then clean_attempt\<lparr>signalSet := True\<rparr> else clean_attempt)"

definition mismatch_attempt :: attempt where
  "mismatch_attempt =
     clean_attempt\<lparr>waitErr := Some (New ''reconciliation failed''),
                   activeFailure := Some \<lparr>Index = 612, Hash = ''b612''\<rparr>\<rparr>"

definition mismatch_in_second :: "nat \<Rightarrow> attempt" where
  "mismatch_in_second k = (if k = 1 then mismatch_attempt else clean_attempt)"

definition abort_close_fails :: "nat \<Rightarrow> attempt" where
  "abort_close_fails k = clean_attempt\<lparr>closeErr := Some (New ''i/o error''), signalSet := True\<rparr>"

definition mismatch_close_fails :: "nat \<Rightarrow> attempt" where
  "mismatch_close_fails k = mismatch_attempt\<lparr>closeErr := Some (New ''i/o error'')\<rparr>"

definition failure_at_300 :: DataTester where
  "failure_at_300 =
     example_tester\<lparr>reconcilerHandler :=
       (reconcilerHandler example_tester)
         \<lparr>InactiveFailureBlock := Some \<lparr>Index = 300, Hash = ''b300''\<rparr>\<rparr>\<rparr>"

definition least_genesis_tester :: DataTester where
  "least_genesis_tester =
     example_tester\<lparr>genesisBlock := \<lparr>Index = - 9223372036854775808, Hash = ''genesis''\<rparr>\<rparr>"

definition read_error_tester :: DataTester where
  "read_error_tester =
     example_tester\<lparr>counterStorage :=
       (\<lambda>c. if c = InactiveReconciliationCounter then Inl (New ''key not found'')
            else Inr 7)\<rparr>"

definition lookup_disabled_tester :: DataTester where
  "lookup_disabled_tester =
     example_tester\<lparr>config := example_data\<lparr>HistoricalBalanceDisabled := True\<rparr>\<rparr>"



section \<open>Outcome classification by \<open>HandleErr\<close>\<close>

lemma counters_checked_exit: "\<exists>ms. snd (counters_checked t) = Exit 0 ms"
  by (simp add: counters_checked_def Let_def split: sum.split)

lemma HandleErr_clean: 
  "\<not> signalReceived t \<Longrightarrow> err = None \<or> err = Some Canceled \<Longrightarrow>
     HandleErr t err = counters_checked t"
  by (auto simp: HandleErr_def)

lemma HandleErr_reads:
  "read \<in> set (fst (HandleErr t err)) \<Longrightarrow> HandleErr t err = counters_checked t"
  by (auto simp: HandleErr_def split: option.splits if_splits)

text \<open>
  Claim C3. Rule 2 of the classification, which \<open>HandleErr\<close> reaches when the abort
  signal of rule 1 is not raised (claim C4): on a nil error and on \<open>context.Canceled\<close> it
  exits with status 0, whatever the counters hold; when both counters are read, it prints
  plain success if their sum is not zero and the no-reconciliations warning if it is zero.
\<close>

theorem HandleErr_clean_completion:
  assumes "\<not> signalReceived t" and "err = None \<or> err = Some Canceled"
  shows "(\<exists>ms. snd (HandleErr t err) = Exit 0 ms) \<and>
         (\<forall>a i. counterStorage t ActiveReconciliationCounter = Inr a \<longrightarrow>
                counterStorage t InactiveReconciliationCounter = Inr i \<longrightarrow>
                snd (HandleErr t err) =
                  Exit 0 [if a + i \<noteq> 0 then CheckSucceeded
                          else CheckSucceededNoReconciliations])"
proof -
  from assms have "HandleErr t err = counters_checked t"
    by (rule HandleErr_clean)
  then show ?thesis
    using counters_checked_exit [of t] by (auto simp: counters_checked_def)
qed

theorem HandleErr_clean_completion_witness:
  "\<not> signalReceived example_tester \<and>
   snd (HandleErr example_tester (Some Canceled)) = Exit 0 [CheckSucceededNoReconciliations]"
  using HandleErr_clean_completion [of example_tester "Some Canceled"]
  by (simp add: example_tester_def)

text \<open>
  Claim C10. When a read of the active or of the inactive reconciliation counter made by
  \<open>HandleErr\<close> returns an error, \<open>HandleErr\<close> prints plain success and exits with status 0:
  neither the no-reconciliations warning nor a failure, and the same outcome as that of a
  clean completion whose two counters were read and sum to a non-zero value.
\<close>

theorem HandleErr_counter_read_error:
  assumes "(c, Inl readErr) \<in> set (fst (HandleErr t err))"
  shows "snd (HandleErr t err) = Exit 0 [CheckSucceeded] \<and>
         (\<forall>t' a i. \<not> signalReceived t' \<and>
            counterStorage t' ActiveReconciliationCounter = Inr a \<and>
            counterStorage t' InactiveReconciliationCounter = Inr i \<and> a + i \<noteq> 0 \<longrightarrow>
            snd (HandleErr t' None) = snd (HandleErr t err))"
proof -
  from assms have "HandleErr t err = counters_checked t"
    by (rule HandleErr_reads)
  with assms have plain: "snd (HandleErr t err) = Exit 0 [CheckSucceeded]"
    by (auto simp: counters_checked_def Let_def split: sum.splits)
  have "snd (HandleErr t' None) = Exit 0 [CheckSucceeded]"
    if "\<not> signalReceived t'" "counterStorage t' ActiveReconciliationCounter = Inr a"
      "counterStorage t' InactiveReconciliationCounter = Inr i" "a + i \<noteq> 0"
    for t' a i
    using that by (simp add: HandleErr_def counters_checked_def)
  with plain show ?thesis by simp
qed

theorem HandleErr_counter_read_error_witness:
  "(InactiveReconciliationCounter, Inl (New ''key not found''))
     \<in> set (fst (HandleErr read_error_tester None)) \<and>
   snd (HandleErr read_error_tester None) = Exit 0 [CheckSucceeded]"
proof -
  have "(InactiveReconciliationCounter, Inl (New ''key not found''))
     \<in> set (fst (HandleErr read_error_tester None))"
    by (simp add: HandleErr_def counters_checked_def read_error_tester_def example_tester_def)
  with HandleErr_counter_read_error [OF this] show ?thesis by simp
qed

text \<open>
  Claim C5. For an error other than nil and \<open>context.Canceled\<close>, with an inactive failure
  recorded and historical balance lookup disabled, \<open>HandleErr\<close> exits with status 1 and
  does not return to the caller, so \<open>FindMissingOps\<close> is not started; the counters are not
  read and play no part. Under rule 4 of the classification, reached when the abort signal
  of rule 1 is not raised, what it prints is that the check failed and that the block
  cannot be found automatically.
\<close>

theorem HandleErr_diagnosis_unavailable:
  assumes "e \<noteq> Canceled"
    and "InactiveFailure (reconcilerHandler t) \<noteq> None"
    and "HistoricalBalanceDisabled (config t)"
  shows "(\<exists>ms. HandleErr (t\<lparr>counterStorage := c\<rparr>) (Some e) = ([], Exit 1 ms)) \<and>
         (\<not> signalReceived t \<longrightarrow>
            HandleErr (t\<lparr>counterStorage := c\<rparr>) (Some e)
              = ([], Exit 1 [CheckFailed e, EnableLookupBalanceByBlock]))"
  using assms by (simp add: HandleErr_def)

theorem HandleErr_diagnosis_unavailable_witness:
  "HistoricalBalanceDisabled (config lookup_disabled_tester) \<and>
   \<not> signalReceived lookup_disabled_tester \<and>
   HandleErr (lookup_disabled_tester\<lparr>counterStorage := (\<lambda>c. Inr 3)\<rparr>)
       (Some (New ''reconciliation failed''))
     = ([], Exit 1 [CheckFailed (New ''reconciliation failed''), EnableLookupBalanceByBlock])"
  using HandleErr_diagnosis_unavailable
    [of "New ''reconciliation failed''" lookup_disabled_tester "\<lambda>c. Inr 3"]
  by (simp add: lookup_disabled_tester_def example_tester_def example_data_def)

section \<open>The abort signal\<close>

text \<open>
  A call recurses only when it has read the signal as not set. So a search never goes
  deeper than the first depth at which the signal is set, and the result of the call at
  that depth is the result of the whole search.
\<close>

lemma no_attempt_after_signal:
  "recursiveOpSearch fuel t w n ac s e = (tr, res) \<Longrightarrow> signalSet (w k) \<Longrightarrow> n \<le> k \<Longrightarrow>
     ev \<in> set tr \<Longrightarrow> depth ev \<le> k"
proof (induction fuel arbitrary: n s e tr res)
  case 0
  then show ?case by simp
next
  case (Suc fuel)
  show ?case
  proof (cases "n = k")
    case True
    with Suc.prems show ?thesis
      by (auto simp: Let_def split: option.splits if_splits prod.splits)
  next
    case False
    with Suc.prems have "Suc n \<le> k" by simp
    with Suc.prems show ?thesis
      by (auto simp: Let_def split: option.splits if_splits prod.splits dest: Suc.IH)
  qed
qed

lemma result_after_signal:
  "recursiveOpSearch fuel t w n ac s e = (tr, res) \<Longrightarrow> signalSet (w k) \<Longrightarrow> n \<le> k \<Longrightarrow>
     SyncAndReconcile k a b \<in> set tr \<Longrightarrow>
     (case closeErr (w k) of
        None \<Rightarrow> res = Some (Inl (New ''Search for block with missing ops halted''))
      | Some err \<Rightarrow> res = Some (Inl (Wrapf err ''unable to close database'')))"
proof (induction fuel arbitrary: n s e tr res)
  case 0
  then show ?case by simp
next
  case (Suc fuel)
  show ?case
  proof (cases "n = k")
    case True
    with Suc.prems show ?thesis
      by (auto simp: Let_def split: option.splits if_splits prod.splits)
  next
    case False
    with Suc.prems have "Suc n \<le> k" by simp
    with Suc.prems False show ?thesis
      by (auto simp: Let_def split: option.splits if_splits prod.splits dest: Suc.IH)
  qed
qed

text \<open>
  Claim C4, amended. \<open>HandleErr\<close> reads the abort signal before anything else: when it is
  raised the outcome is the halted message and exit status 1, for every error and every
  other state. In a search started at depth \<open>n\<close>, let the signal be set when the call at
  depth \<open>k\<close> has run its sync and reconcile tasks. Then no call deeper than \<open>k\<close> is made
  and the search returns neither a block nor the exhausted-window error. It returns the
  halted error if \<open>localStore.Close\<close> returned nil, and the error of \<open>Close\<close> otherwise:
  the result of \<open>Close\<close> is tested before the signal is read.
\<close>

theorem abort_signal_halts:
  "(signalReceived t \<longrightarrow> HandleErr t err = ([], Exit 1 [CheckHalted])) \<and>
   (signalSet (w k) \<and> n \<le> k \<and>
    SyncAndReconcile k a b \<in> set (fst (recursiveOpSearch fuel t w n ac s e)) \<longrightarrow>
      (\<forall>ev \<in> set (fst (recursiveOpSearch fuel t w n ac s e)). depth ev \<le> k) \<and>
      (\<forall>block. snd (recursiveOpSearch fuel t w n ac s e) \<noteq> Some (Inr block)) \<and>
      (\<forall>x y. snd (recursiveOpSearch fuel t w n ac s e) \<noteq> Some (Inl (NextWindowErr x y))) \<and>
      (closeErr (w k) = None \<longrightarrow>
         snd (recursiveOpSearch fuel t w n ac s e)
           = Some (Inl (New ''Search for block with missing ops halted''))) \<and>
      (\<forall>storageErr. closeErr (w k) = Some storageErr \<longrightarrow>
         snd (recursiveOpSearch fuel t w n ac s e)
           = Some (Inl (Wrapf storageErr ''unable to close database''))))"
proof -
  obtain tr res where run: "recursiveOpSearch fuel t w n ac s e = (tr, res)"
    by (cases "recursiveOpSearch fuel t w n ac s e")
  have "depth ev \<le> k" if "signalSet (w k)" "n \<le> k" "ev \<in> set tr" for ev
    using no_attempt_after_signal [OF run that] .
  moreover have "case closeErr (w k) of
        None \<Rightarrow> res = Some (Inl (New ''Search for block with missing ops halted''))
      | Some err \<Rightarrow> res = Some (Inl (Wrapf err ''unable to close database''))"
    if "signalSet (w k)" "n \<le> k" "SyncAndReconcile k a b \<in> set tr"
    using result_after_signal [OF run that] .
  ultimately show ?thesis
    by (auto simp: run HandleErr_def split: option.splits)
qed

theorem abort_signal_halts_witness:
  "signalSet (abort_during_second 1) \<and>
   SyncAndReconcile 1 500 750
     \<in> set (fst (recursiveOpSearch 5 example_tester abort_during_second 0
                   (Some example_account) 750 1000)) \<and>
   snd (recursiveOpSearch 5 example_tester abort_during_second 0
          (Some example_account) 750 1000)
     = Some (Inl (New ''Search for block with missing ops halted''))"
proof -
  have ran: "SyncAndReconcile 1 500 750
     \<in> set (fst (recursiveOpSearch 5 example_tester abort_during_second 0
                   (Some example_account) 750 1000))"
    by (simp add: eval_nat_numeral abort_during_second_def clean_attempt_def
        example_tester_def InactiveFailureLookbackWindow_def)
  have sig: "signalSet (abort_during_second 1)" "closeErr (abort_during_second 1) = None"
    by (simp_all add: abort_during_second_def clean_attempt_def)
  from abort_signal_halts [of example_tester None abort_during_second 1 0 500 750 5
      "Some example_account" 750 1000] ran sig
  show ?thesis by simp
qed

text \<open>
  Claim C4 as stated fails where \<open>Close\<close> fails: with the signal set after the tasks of
  the first call have settled, the call returns the error of \<open>Close\<close>, not the halted
  error.
\<close>

theorem close_error_precedes_halt:
  "signalSet (abort_close_fails 0) \<and>
   SyncAndReconcile 0 750 1000
     \<in> set (fst (recursiveOpSearch 1 example_tester abort_close_fails 0
                   (Some example_account) 750 1000)) \<and>
   snd (recursiveOpSearch 1 example_tester abort_close_fails 0 (Some example_account) 750 1000)
     = Some (Inl (Wrapf (New ''i/o error'') ''unable to close database'')) \<and>
   snd (recursiveOpSearch 1 example_tester abort_close_fails 0 (Some example_account) 750 1000)
     \<noteq> Some (Inl (New ''Search for block with missing ops halted''))"
  by (simp add: abort_close_fails_def clean_attempt_def)

section \<open>A genuine failure inside a window\<close>

text \<open>
  The result of the call whose tasks fail is handed up unchanged by the calls above it.
\<close>

lemma result_after_failure:
  "recursiveOpSearch fuel t w n ac s e = (tr, res) \<Longrightarrow> n \<le> k \<Longrightarrow>
     SyncAndReconcile k a b \<in> set tr \<Longrightarrow>
     closeErr (w k) = None \<Longrightarrow> \<not> signalSet (w k) \<Longrightarrow>
     waitErr (w k) = Some err \<Longrightarrow> err \<noteq> Canceled \<Longrightarrow>
     res = (case activeFailure (w k) of
              Some block \<Rightarrow> Some (Inr block)
            | None \<Rightarrow> Some (Inl (New ''unable to find missing ops'')))"
proof (induction fuel arbitrary: n s e tr res)
  case 0
  then show ?case by simp
next
  case (Suc fuel)
  show ?case
  proof (cases "n = k")
    case True
    with Suc.prems show ?thesis
      by (auto simp: Let_def split: option.splits if_splits prod.splits)
  next
    case False
    with Suc.prems have "Suc n \<le> k" by simp
    with Suc.prems False show ?thesis
      by (auto simp: Let_def split: option.splits if_splits prod.splits dest: Suc.IH)
  qed
qed

text \<open>
  Claim C6, amended. In a search started at depth \<open>n\<close>, let the call at depth \<open>k\<close> have run its
  tasks with a joint result that is neither nil nor \<open>context.Canceled\<close>, and let it reach
  the classification of that result (its storage closed without error and no abort signal
  seen). Then the search returns the active failure block that this call's handler
  recorded, if there is one, and otherwise the error "unable to find missing ops", which
  is neither the halted error nor the exhausted-window error.
\<close>

theorem genuine_failure_classified:
  assumes "n \<le> k"
    and "SyncAndReconcile k a b \<in> set (fst (recursiveOpSearch fuel t w n ac s e))"
    and "closeErr (w k) = None" and "\<not> signalSet (w k)"
    and "waitErr (w k) = Some err" and "err \<noteq> Canceled"
  shows "snd (recursiveOpSearch fuel t w n ac s e)
           = (case activeFailure (w k) of
                Some block \<Rightarrow> Some (Inr block)
              | None \<Rightarrow> Some (Inl (New ''unable to find missing ops''))) \<and>
         New ''unable to find missing ops'' \<noteq> New ''Search for block with missing ops halted'' \<and>
         (\<forall>x y. New ''unable to find missing ops'' \<noteq> NextWindowErr x y)"
proof -
  obtain tr res where run: "recursiveOpSearch fuel t w n ac s e = (tr, res)"
    by (cases "recursiveOpSearch fuel t w n ac s e")
  from assms(2) have "SyncAndReconcile k a b \<in> set tr"
    by (simp add: run)
  from result_after_failure [OF run assms(1) this assms(3-6)] show ?thesis
    by (simp add: run)
qed

theorem genuine_failure_classified_witness:
  "SyncAndReconcile 1 500 750
     \<in> set (fst (recursiveOpSearch 5 example_tester mismatch_in_second 0
                   (Some example_account) 750 1000)) \<and>
   waitErr (mismatch_in_second 1) = Some (New ''reconciliation failed'') \<and>
   snd (recursiveOpSearch 5 example_tester mismatch_in_second 0
          (Some example_account) 750 1000)
     = Some (Inr \<lparr>Index = 612, Hash = ''b612''\<rparr>)"
proof -
  have ran: "SyncAndReconcile 1 500 750
     \<in> set (fst (recursiveOpSearch 5 example_tester mismatch_in_second 0
                   (Some example_account) 750 1000))"
    by (simp add: eval_nat_numeral mismatch_in_second_def mismatch_attempt_def
        clean_attempt_def example_tester_def InactiveFailureLookbackWindow_def)
  have at: "closeErr (mismatch_in_second 1) = None" "\<not> signalSet (mismatch_in_second 1)"
    "waitErr (mismatch_in_second 1) = Some (New ''reconciliation failed'')"
    "activeFailure (mismatch_in_second 1) = Some \<lparr>Index = 612, Hash = ''b612''\<rparr>"
    by (simp_all add: mismatch_in_second_def mismatch_attempt_def clean_attempt_def)
  from genuine_failure_classified [of 0 1 500 750 5 example_tester mismatch_in_second
      "Some example_account" 750 1000 "New ''reconciliation failed''"] ran at
  show ?thesis by simp
qed

text \<open>
  Claim C6 as stated fails where \<open>Close\<close> fails: the joint result is a genuine failure
  and the handler has recorded an active failure block, but the call returns the error of
  \<open>Close\<close> and not the block.
\<close>

theorem close_error_precedes_block:
  "waitErr (mismatch_close_fails 0) = Some (New ''reconciliation failed'') \<and>
   activeFailure (mismatch_close_fails 0) = Some \<lparr>Index = 612, Hash = ''b612''\<rparr> \<and>
   snd (recursiveOpSearch 1 example_tester mismatch_close_fails 0
          (Some example_account) 750 1000)
     = Some (Inl (Wrapf (New ''i/o error'') ''unable to close database'')) \<and>
   snd (recursiveOpSearch 1 example_tester mismatch_close_fails 0
          (Some example_account) 750 1000)
     \<noteq> Some (Inr \<lparr>Index = 612, Hash = ''b612''\<rparr>)"
  by (simp add: mismatch_close_fails_def mismatch_attempt_def clean_attempt_def)

section \<open>The reconciler of a search\<close>

text \<open>
  The account and the tester are passed on unchanged, so every call of the search gives
  \<open>reconciler.New\<close> the same handler and the same options.
\<close>

lemma ReconcilerNew_in_trace:
  "recursiveOpSearch fuel t w n ac s e = (tr, res) \<Longrightarrow> ReconcilerNew k h opts \<in> set tr \<Longrightarrow>
     h = NewReconcilerHandler True \<and>
     opts = [WithActiveConcurrency 1, WithInactiveConcurrency 0,
             WithLookupBalanceByBlock (\<not> HistoricalBalanceDisabled (config t)),
             WithInterestingAccounts [ac]]"
proof (induction fuel arbitrary: n s e tr res)
  case 0
  then show ?case by simp
next
  case (Suc fuel)
  from Suc.prems show ?case
    by (auto simp: Let_def split: option.splits if_splits prod.splits dest: Suc.IH)
qed

lemma foldl_apply_option_handler:
  "handler (foldl apply_option r opts) = handler r"
proof (induction opts arbitrary: r)
  case Nil
  then show ?case by simp
next
  case (Cons opt opts)
  then show ?case by (cases opt) simp_all
qed

text \<open>
  Claim C7. Every call of \<open>reconciler.New\<close> made during a search, at any depth, builds a
  reconciler with active concurrency 1, inactive concurrency 0, the account under
  diagnosis as its only interesting account, a handler that halts on a reconciliation
  error, and a lookup-balance-by-block flag that is the negation of
  \<open>HistoricalBalanceDisabled\<close> in the tester's configuration: the value the reconciler
  built by \<open>InitializeData\<close> from the same configuration has.
\<close>

theorem strict_reconciler_configuration:
  assumes "ReconcilerNew k h opts
             \<in> set (fst (recursiveOpSearch fuel t w n accountCurrency startIndex endIndex))"
  shows "activeConcurrency (reconciler_New defaults h opts) = 1 \<and>
         inactiveConcurrency (reconciler_New defaults h opts) = 0 \<and>
         interestingAccounts (reconciler_New defaults h opts) = [accountCurrency] \<and>
         haltOnReconciliationError (handler (reconciler_New defaults h opts)) \<and>
         lookupBalanceByBlock (reconciler_New defaults h opts)
           = (\<not> HistoricalBalanceDisabled (config t)) \<and>
         (\<forall>env d genesis rf sg steps top.
            InitializeData env d (config t) genesis rf sg = (steps, ReturnTester top) \<longrightarrow>
            lookupBalanceByBlock (reconciler_New defaults h opts)
              = lookupBalanceByBlock (reconciler top))"
proof -
  obtain tr res where
    run: "recursiveOpSearch fuel t w n accountCurrency startIndex endIndex = (tr, res)"
    by (cases "recursiveOpSearch fuel t w n accountCurrency startIndex endIndex")
  with assms have "ReconcilerNew k h opts \<in> set tr" by simp
  from ReconcilerNew_in_trace [OF run this]
  have built: "h = NewReconcilerHandler True"
    "opts = [WithActiveConcurrency 1, WithInactiveConcurrency 0,
             WithLookupBalanceByBlock (\<not> HistoricalBalanceDisabled (config t)),
             WithInterestingAccounts [accountCurrency]]"
    by simp_all
  have top: "lookupBalanceByBlock (reconciler top) = (\<not> HistoricalBalanceDisabled (config t))"
    if "InitializeData env d (config t) genesis rf sg = (steps, ReturnTester top)"
    for env d genesis rf sg steps top
    using that
    by (auto simp: InitializeData_def reconciler_New_def Let_def
        split: option.splits sum.splits if_splits)
  show ?thesis
    by (simp add: built reconciler_New_def NewReconcilerHandler_def top)
qed

theorem strict_reconciler_configuration_witness:
  "ReconcilerNew 0 (NewReconcilerHandler True)
     [WithActiveConcurrency 1, WithInactiveConcurrency 0, WithLookupBalanceByBlock True,
      WithInterestingAccounts [Some example_account]]
     \<in> set (fst (recursiveOpSearch 1 example_tester always_clean 0
                   (Some example_account) 750 1000)) \<and>
   activeConcurrency (reconciler_New sdk_defaults (NewReconcilerHandler True)
     [WithActiveConcurrency 1, WithInactiveConcurrency 0, WithLookupBalanceByBlock True,
      WithInterestingAccounts [Some example_account]]) = 1 \<and>
   inactiveConcurrency (reconciler_New sdk_defaults (NewReconcilerHandler True)
     [WithActiveConcurrency 1, WithInactiveConcurrency 0, WithLookupBalanceByBlock True,
      WithInterestingAccounts [Some example_account]]) = 0"
proof -
  have built: "ReconcilerNew 0 (NewReconcilerHandler True)
     [WithActiveConcurrency 1, WithInactiveConcurrency 0, WithLookupBalanceByBlock True,
      WithInterestingAccounts [Some example_account]]
     \<in> set (fst (recursiveOpSearch 1 example_tester always_clean 0
                   (Some example_account) 750 1000))"
    by (simp add: always_clean_def clean_attempt_def example_tester_def example_data_def
        InactiveFailureLookbackWindow_def)
  from strict_reconciler_configuration [OF built, of sdk_defaults] built
  show ?thesis by simp
qed

section \<open>The windows of a search\<close>

text \<open>
  The example of the specification: genesis index 0 and an inactive failure at block 1000.
\<close>

lemma first_three_windows:
  "windows (fst (FindMissingOps 3 example_tester always_clean))
     = [(750, 1000), (500, 750), (250, 500)]"
  by (simp add: FindMissingOps_def eval_nat_numeral always_clean_def clean_attempt_def
      example_tester_def InactiveFailureLookbackWindow_def)

text \<open>
  Claim C1. The claim holds where the clamp does not act, as in its example (lemma
  \<open>first_three_windows\<close>), and fails where it does. With the genesis block at index 0 and
  an inactive failure at block 300, the first window is \<open>[50, 300]\<close>. After its clean
  completion the code computes \<open>newStart = 0\<close> and \<open>newEnd = 50\<close> and prints that it now
  searches \<open>0-50\<close>, but calls itself with \<open>startIndex - 250\<close> and \<open>endIndex - 250\<close>: the
  second window handed to the syncer is \<open>[-200, 50]\<close>.
\<close>

theorem recursion_skips_clamp:
  "fst (FindMissingOps 2 failure_at_300 always_clean) ! 5 = StorageClosed 0 \<and>
   fst (FindMissingOps 2 failure_at_300 always_clean) ! 6 = NowSearching 0 0 50 \<and>
   windows (fst (FindMissingOps 2 failure_at_300 always_clean)) = [(50, 300), (- 200, 50)]"
  by (simp add: FindMissingOps_def eval_nat_numeral always_clean_def clean_attempt_def
      failure_at_300_def example_tester_def InactiveFailureLookbackWindow_def)

section \<open>Exhausting the search space\<close>

text \<open>
  Subtracting 250 from an \<open>int64\<close>: the exact difference, or \<open>2 ^ 64\<close> more when the
  difference falls below the least \<open>int64\<close>.
\<close>

lemma signed_take_bit_sub_250:
  fixes k :: int
  assumes "- (2 ^ 63) \<le> k" "k < 2 ^ 63"
  shows "signed_take_bit 63 (k - 250)
           = (if - (2 ^ 63) + 250 \<le> k then k - 250 else k - 250 + 2 ^ 64)"
proof (cases "- (2 ^ 63) + 250 \<le> k")
  case True
  with assms have "signed_take_bit 63 (k - 250) = k - 250"
    by (intro signed_take_bit_int_eq_self) auto
  with True show ?thesis by simp
next
  case False
  have "signed_take_bit 63 (k - 250) = signed_take_bit 63 (k - 250 + 2 ^ 64)"
  proof -
    have "(k - 250 + 2 ^ 63 + 2 ^ 64) mod 2 ^ 64 = (k - 250 + 2 ^ 63) mod (2 ^ 64 :: int)"
      by (rule mod_add_self2)
    then show ?thesis
      by (simp add: signed_take_bit_eq_take_bit_shift take_bit_eq_mod add.commute)
  qed
  also from False assms have "\<dots> = k - 250 + 2 ^ 64"
    by (intro signed_take_bit_int_eq_self) auto
  finally show ?thesis using False by simp
qed

lemma sint_sub_250:
  "sint (x - 250 :: int64)
     = (if - (2 ^ 63) + 250 \<le> sint x then sint x - 250 else sint x - 250 + 2 ^ 64)"
  using signed_take_bit_sub_250 [of "sint x"] sint_ge [of x] sint_lt [of x]
  by (simp add: sint_word_ariths)

lemma offset_range: "0 \<le> offset x" "offset x < 18446744073709551616"
  using sint_ge [of x] sint_lt [of x] by (simp_all add: offset_def)

lemma offset_sub_250:
  "offset (x - 250)
     = (if 250 \<le> offset x then offset x - 250 else offset x + 18446744073709551366)"
  by (simp add: offset_def sint_sub_250)

text \<open>
  A wrap-around adds \<open>2 ^ 64 - 250\<close> to the offset, which moves its remainder modulo 250 by
  116 and lowers \<open>wraps_left\<close> by one: 28 is the inverse of \<open>- 58\<close> modulo 125.
\<close>

lemma wrap_shifts_remainder: "(u + 18446744073709551366) mod 250 = (u + 116) mod (250 :: int)"
proof -
  have "(u + 116 + 250 * 73786976294838205) mod 250 = (u + 116) mod (250 :: int)"
    by (rule mod_mult_self2)
  then show ?thesis by (simp add: algebra_simps)
qed

lemma mod_125_predecessor:
  fixes x :: int
  assumes "x mod 125 \<noteq> 0"
  shows "(x + 124) mod 125 = x mod 125 - 1"
proof -
  define d m where "d = x div 125" and "m = x mod 125"
  have m: "0 \<le> m" "m < 125" "m \<noteq> 0"
    using assms by (simp_all add: m_def)
  have "x = m + 125 * d"
    by (simp add: d_def m_def)
  then have eq: "x + 124 = (m - 1) + 125 * (d + 1)"
    by simp
  have "(x + 124) mod 125 = ((m - 1) + 125 * (d + 1)) mod 125"
    by (simp only: eq)
  also have "\<dots> = (m - 1) mod 125"
    by (rule mod_mult_self2)
  also from m have "\<dots> = m - 1"
    by (intro mod_pos_pos_trivial) linarith+
  finally show ?thesis by (simp add: m_def)
qed

lemma mod_125_nonzero: 
  assumes "1 \<le> q" "q \<le> (124::int)" shows "(28 * q) mod 125 \<noteq> 0"
proof
  assume "(28 * q) mod 125 = 0"
  then have "125 dvd 28 * q" by (simp add: dvd_eq_mod_eq_0)
  then have "125 dvd 67 * (28 * q)" by (rule dvd_mult)
  moreover have "(125::int) dvd 125 * (15 * q)" by (rule dvd_triv_left)
  ultimately have "125 dvd 67 * (28 * q) - 125 * (15 * q)" by (rule dvd_diff)
  moreover have "67 * (28 * q) - 125 * (15 * q) = q" by simp
  ultimately have "125 dvd q" by simp
  with assms show False by (auto dest: zdvd_imp_le)
qed

lemma wrap_lowers_count: 
  assumes "2 \<le> u" "u < (250::int)"
  shows "(28 * (((u + 116) mod 250) div 2)) mod 125 < (28 * (u div 2)) mod 125"
proof -
  define q where "q = u div 2"
  have q: "1 \<le> q" "q \<le> 124" using assms unfolding q_def by linarith+
  have "((u + 116) mod 250) div 2 = q + 58 \<or> ((u + 116) mod 250) div 2 = q + 58 - 125"
  proof (cases "u + 116 < 250")
    case True
    with assms have "(u + 116) mod 250 = u + 116" by simp
    moreover have "(u + 2 * 58) div 2 = 58 + u div 2" by (rule div_mult_self2) simp
    ultimately show ?thesis by (simp add: q_def)
  next
    case False
    with assms have "(u + 116) mod 250 = u + 116 - 250"
      by (simp add: mod_pos_geq)
    moreover have "(u + 2 * (- 67)) div 2 = - 67 + u div 2" by (rule div_mult_self2) simp
    ultimately show ?thesis by (simp add: q_def)
  qed
  then have "(28 * (((u + 116) mod 250) div 2)) mod 125 = (28 * q + 124) mod 125"
  proof
    assume h: "((u + 116) mod 250) div 2 = q + 58"
    have "(28 * q + 124 + 125 * 12) mod 125 = (28 * q + 124) mod 125"
      by (rule mod_mult_self2)
    then show ?thesis by (simp add: h algebra_simps)
  next
    assume h: "((u + 116) mod 250) div 2 = q + 58 - 125"
    have "(28 * q + 124 + 125 * (- 16)) mod 125 = (28 * q + 124) mod 125"
      by (rule mod_mult_self2)
    then show ?thesis by (simp add: h algebra_simps)
  qed
  also have "\<dots> = (28 * q) mod 125 - 1"
    using mod_125_nonzero [OF q] by (rule mod_125_predecessor)
  finally show ?thesis by (simp add: q_def)
qed

lemma wraps_left_wrap:
  assumes "0 \<le> u" "u < 250"
  shows "wraps_left (u + 18446744073709551366) < wraps_left u"
proof -
  from assms have big: "\<not> u + 18446744073709551366 < 2" by linarith
  have lhs: "wraps_left (u + 18446744073709551366) = (28 * (((u + 116) mod 250) div 2)) mod 125"
    unfolding wraps_left_def wrap_shifts_remainder using big by (simp only: if_False)
  show ?thesis
  proof (cases "u < 2")
    case True
    then have "wraps_left u = 125" by (simp only: wraps_left_def if_True)
    moreover have "(28 * (((u + 116) mod 250) div 2)) mod 125 < (125::int)"
      by (rule pos_mod_bound) simp
    ultimately show ?thesis by (simp only: lhs)
  next
    case False
    from assms have "u mod 250 = u" by simp
    with False have "wraps_left u = (28 * (u div 2)) mod 125"
      by (simp only: wraps_left_def if_False)
    with wrap_lowers_count [of u] False assms show ?thesis by (simp only: lhs)
  qed
qed


lemma wraps_left_range: "0 \<le> wraps_left u" "wraps_left u \<le> 125"
proof -
  have "0 \<le> (28 * ((u mod 250) div 2)) mod (125::int)"
    by (rule pos_mod_sign) simp
  moreover have "(28 * ((u mod 250) div 2)) mod 125 < (125::int)"
    by (rule pos_mod_bound) simp
  ultimately show "0 \<le> wraps_left u" "wraps_left u \<le> 125"
    by (auto simp add: wraps_left_def)
qed

lemma wraps_left_no_wrap:
  assumes "2 \<le> u - 250"
  shows "wraps_left (u - 250) = wraps_left u"
proof -
  have "(u - 250) mod 250 = u mod (250::int)"
    using mod_mult_self2 [of u 250 "- 1"] by simp
  with assms show ?thesis by (simp add: wraps_left_def)
qed

text \<open>Each further window lowers the measure, provided its end lies above the least index.\<close>

lemma search_measure_decreases:
  assumes "2 \<le> offset (x - 250)"
  shows "search_measure (x - 250) < search_measure x"
proof (cases "250 \<le> offset x")
  case True
  then have off: "offset (x - 250) = offset x - 250"
    by (simp add: offset_sub_250)
  with assms have "wraps_left (offset (x - 250)) = wraps_left (offset x)"
    by (simp add: wraps_left_no_wrap)
  with off True wraps_left_range [of "offset x"] show ?thesis
    by (simp add: search_measure_def)
next
  case False
  then have off: "offset (x - 250) = offset x + 18446744073709551366"
    by (simp add: offset_sub_250)
  from False offset_range [of x]
  have "wraps_left (offset x + 18446744073709551366) < wraps_left (offset x)"
    by (intro wraps_left_wrap) simp_all
  then have "wraps_left (offset (x - 250)) + 1 \<le> wraps_left (offset x)"
    by (simp add: off)
  then have "(wraps_left (offset (x - 250)) + 1) * 18446744073709551616
               \<le> wraps_left (offset x) * 18446744073709551616"
    by (rule mult_right_mono) simp
  with offset_range [of x] offset_range [of "x - 250"] wraps_left_range [of "offset (x - 250)"]
  show ?thesis
    by (simp add: search_measure_def algebra_simps)
qed


text \<open>One call whose attempt completes cleanly: it stops, or hands over to the next call.\<close>

lemma clean_step:
  assumes "completes_cleanly (w n)"
  shows "snd (recursiveOpSearch (Suc fuel) t w n ac s e) =
     (if sint (e - 250)
           \<le> sint (if sint (s - 250) < sint (Index (genesisBlock t))
                    then Index (genesisBlock t) else s - 250)
      then Some (Inl (NextWindowErr
                   (if sint (s - 250) < sint (Index (genesisBlock t))
                    then Index (genesisBlock t) else s - 250)
                   (e - 250)))
      else snd (recursiveOpSearch fuel t w (Suc n) ac (s - 250) (e - 250)))"
  using assms
  by (auto simp: completes_cleanly_def Let_def InactiveFailureLookbackWindow_def
      split: prod.splits option.splits)

lemma search_exhausts:
  assumes clean: "\<forall>k. completes_cleanly (w k)"
    and genesis: "- (2 ^ 63) < sint (Index (genesisBlock t))"
  shows "\<exists>fuel a b. snd (recursiveOpSearch fuel t w n ac s e) = Some (Inl (NextWindowErr a b))
           \<and> sint b \<le> sint a"
proof (induction "search_measure e" arbitrary: n s e rule: less_induct)
  case less
  define newStart where
    "newStart = (if sint (s - 250) < sint (Index (genesisBlock t))
                 then Index (genesisBlock t) else s - 250)"
  from clean have step: "snd (recursiveOpSearch (Suc fuel) t w n ac s e) =
     (if sint (e - 250) \<le> sint newStart then Some (Inl (NextWindowErr newStart (e - 250)))
      else snd (recursiveOpSearch fuel t w (Suc n) ac (s - 250) (e - 250)))" for fuel
    unfolding newStart_def by (intro clean_step) simp
  show ?case
  proof (cases "sint (e - 250) \<le> sint newStart")
    case True
    with step [of 0] have "snd (recursiveOpSearch (Suc 0) t w n ac s e)
        = Some (Inl (NextWindowErr newStart (e - 250)))"
      by (simp only: if_True)
    with True show ?thesis by blast
  next
    case False
    have "sint (Index (genesisBlock t)) \<le> sint newStart"
      by (simp add: newStart_def)
    with False genesis have "2 \<le> offset (e - 250)"
      by (simp add: offset_def)
    then have "search_measure (e - 250) < search_measure e"
      by (rule search_measure_decreases)
    from less [OF this, of "Suc n" "s - 250"]
    obtain fuel a b where
      "snd (recursiveOpSearch fuel t w (Suc n) ac (s - 250) (e - 250))
         = Some (Inl (NextWindowErr a b))" "sint b \<le> sint a"
      by blast
    with False step [of fuel] have "snd (recursiveOpSearch (Suc fuel) t w n ac s e)
        = Some (Inl (NextWindowErr a b))"
      by (simp only: if_False)
    with \<open>sint b \<le> sint a\<close> show ?thesis by blast
  qed
qed

lemma search_only_exhausts:
  assumes clean: "\<forall>k. completes_cleanly (w k)"
  shows "snd (recursiveOpSearch fuel t w n ac s e) = Some res \<Longrightarrow>
           \<exists>a b. res = Inl (NextWindowErr a b) \<and> sint b \<le> sint a"
proof (induction fuel arbitrary: n s e)
  case 0
  then show ?case by simp
next
  case (Suc fuel)
  from clean have cn: "completes_cleanly (w n)" by simp
  from Suc.prems Suc.IH show ?case
    unfolding clean_step [of w n, OF cn]
    by (auto split: if_splits)
qed

text \<open>
  The windows of a search have the width \<open>FindMissingOps\<close> starts with: the start is 250
  below the end, and the recursion lowers both by 250. When the end of the next window is
  within 250 of the least \<open>int64\<close>, its start has wrapped around and lies above it, so the
  search stops there if not before.
\<close>

lemma shaped_stop:
  assumes "offset x < 250"
  shows "sint x \<le> sint (if sint (x - 250) < sint g then g else x - 250)"
proof -
  from assms have "offset (x - 250) = offset x + 18446744073709551366"
    by (simp add: offset_sub_250)
  then have "sint x < sint (x - 250)"
    by (simp add: offset_def)
  then show ?thesis by simp
qed

lemma shaped_measure_decreases:
  assumes "250 \<le> offset (x - 250)"
  shows "shaped_measure (x - 250) < shaped_measure x"
proof (cases "250 \<le> offset x")
  case True
  then have "offset (x - 250) = offset x - 250"
    by (simp add: offset_sub_250)
  with assms True show ?thesis
    by (simp add: shaped_measure_def)
next
  case False
  with assms offset_range [of x] offset_range [of "x - 250"] show ?thesis
    by (simp add: shaped_measure_def)
qed

lemma shaped_search_exhausts:
  assumes clean: "\<forall>k. completes_cleanly (w k)"
  shows "\<exists>fuel x y. snd (recursiveOpSearch fuel t w n ac (e - 250) e)
             = Some (Inl (NextWindowErr x y)) \<and> sint y \<le> sint x"
proof (induction "shaped_measure e" arbitrary: n e rule: less_induct)
  case less
  define newStart where
    "newStart = (if sint (e - 250 - 250) < sint (Index (genesisBlock t))
                 then Index (genesisBlock t) else e - 250 - 250)"
  from clean have step: "snd (recursiveOpSearch (Suc fuel) t w n ac (e - 250) e) =
     (if sint (e - 250) \<le> sint newStart then Some (Inl (NextWindowErr newStart (e - 250)))
      else snd (recursiveOpSearch fuel t w (Suc n) ac (e - 250 - 250) (e - 250)))" for fuel
    unfolding newStart_def by (intro clean_step) simp
  show ?case
  proof (cases "sint (e - 250) \<le> sint newStart")
    case True
    with step [of 0] have "snd (recursiveOpSearch (Suc 0) t w n ac (e - 250) e)
        = Some (Inl (NextWindowErr newStart (e - 250)))"
      by (simp only: if_True)
    with True show ?thesis by blast
  next
    case False
    with shaped_stop [of "e - 250" "Index (genesisBlock t)"]
    have "250 \<le> offset (e - 250)"
      unfolding newStart_def by fastforce
    then have "shaped_measure (e - 250) < shaped_measure e"
      by (rule shaped_measure_decreases)
    from less [OF this, of "Suc n"]
    obtain fuel x y where
      "snd (recursiveOpSearch fuel t w (Suc n) ac (e - 250 - 250) (e - 250))
         = Some (Inl (NextWindowErr x y))" "sint y \<le> sint x"
      by blast
    with False step [of fuel] have "snd (recursiveOpSearch (Suc fuel) t w n ac (e - 250) e)
        = Some (Inl (NextWindowErr x y))"
      by (simp only: if_False)
    with \<open>sint y \<le> sint x\<close> show ?thesis by blast
  qed
qed

lemma FindMissingOps_result:
  assumes "InactiveFailureBlock (reconcilerHandler t) = Some b"
  shows "snd (FindMissingOps fuel t w) =
     (case snd (recursiveOpSearch fuel t w 0 (InactiveFailure (reconcilerHandler t))
                  (Index b - 250) (Index b)) of
        None \<Rightarrow> OutOfFuel
      | Some (Inl err) \<Rightarrow> CouldNotFind err
      | Some (Inr badBlock) \<Rightarrow>
          (case InactiveFailure (reconcilerHandler t) of
             None \<Rightarrow> Panic
           | Some failure \<Rightarrow> MissingOps failure badBlock))"
  using assms
  by (simp add: FindMissingOps_def InactiveFailureLookbackWindow_def
      split: prod.split option.split sum.split)

text \<open>
  Claim C2. Let every attempted window complete cleanly (its directory and storage are
  provisioned, the joint result is nil or \<open>context.Canceled\<close>, the storage closes without
  error and no abort signal is seen). Then for every genesis index and every block index
  of the inactive failure, the search that \<open>FindMissingOps\<close> starts returns after finitely
  many calls, and what it returns is the error of the exhausted search space, raised for
  a next window with \<open>newEnd <= newStart\<close>. The same holds for \<open>recursiveOpSearch\<close> at any
  depth on a window of that width, and on no window at all does a search of clean
  attempts return a block or another error.
\<close>

theorem clean_search_exhausts:
  assumes "\<forall>k. completes_cleanly (w k)"
  shows "(InactiveFailureBlock (reconcilerHandler t) = Some failureBlock \<longrightarrow>
            (\<exists>fuel x y. snd (FindMissingOps fuel t w) = CouldNotFind (NextWindowErr x y)
               \<and> sint y \<le> sint x) \<and>
            (\<forall>fuel. snd (FindMissingOps fuel t w) = OutOfFuel \<or>
               (\<exists>x y. snd (FindMissingOps fuel t w) = CouldNotFind (NextWindowErr x y)
                  \<and> sint y \<le> sint x))) \<and>
         (\<exists>fuel x y.
            snd (recursiveOpSearch fuel t w n ac (endIndex - InactiveFailureLookbackWindow)
                   endIndex)
              = Some (Inl (NextWindowErr x y)) \<and> sint y \<le> sint x) \<and>
         (\<forall>fuel res. snd (recursiveOpSearch fuel t w n ac startIndex endIndex) = Some res \<longrightarrow>
            (\<exists>x y. res = Inl (NextWindowErr x y) \<and> sint y \<le> sint x))"
proof (intro conjI impI allI)
  assume block: "InactiveFailureBlock (reconcilerHandler t) = Some failureBlock"
  let ?search = "\<lambda>fuel. snd (recursiveOpSearch fuel t w 0
      (InactiveFailure (reconcilerHandler t)) (Index failureBlock - 250) (Index failureBlock))"
  from shaped_search_exhausts [OF assms]
  obtain fuel x y where "?search fuel = Some (Inl (NextWindowErr x y))" "sint y \<le> sint x"
    by blast
  then have "snd (FindMissingOps fuel t w) = CouldNotFind (NextWindowErr x y)"
    by (simp add: FindMissingOps_result [OF block])
  with \<open>sint y \<le> sint x\<close>
  show "\<exists>fuel x y. snd (FindMissingOps fuel t w) = CouldNotFind (NextWindowErr x y)
          \<and> sint y \<le> sint x"
    by blast
  show "snd (FindMissingOps fuel t w) = OutOfFuel \<or>
          (\<exists>x y. snd (FindMissingOps fuel t w) = CouldNotFind (NextWindowErr x y)
             \<and> sint y \<le> sint x)" for fuel
  proof (cases "?search fuel")
    case None
    then show ?thesis by (simp add: FindMissingOps_result [OF block])
  next
    case (Some res)
    from search_only_exhausts [OF assms this]
    obtain x y where "res = Inl (NextWindowErr x y)" "sint y \<le> sint x" by blast
    with Some show ?thesis by (simp add: FindMissingOps_result [OF block])
  qed
next
  show "\<exists>fuel x y.
      snd (recursiveOpSearch fuel t w n ac (endIndex - InactiveFailureLookbackWindow) endIndex)
        = Some (Inl (NextWindowErr x y)) \<and> sint y \<le> sint x"
    unfolding InactiveFailureLookbackWindow_def by (rule shaped_search_exhausts [OF assms])
next
  fix fuel res
  assume "snd (recursiveOpSearch fuel t w n ac startIndex endIndex) = Some res"
  then show "\<exists>x y. res = Inl (NextWindowErr x y) \<and> sint y \<le> sint x"
    by (rule search_only_exhausts [OF assms])
qed

theorem clean_search_exhausts_witness:
  "completes_cleanly (always_clean 7) \<and>
   Index (genesisBlock least_genesis_tester) = - 9223372036854775808 \<and>
   (\<exists>fuel x y. snd (FindMissingOps fuel least_genesis_tester always_clean)
                  = CouldNotFind (NextWindowErr x y))"
proof -
  have clean: "\<forall>k. completes_cleanly (always_clean k)"
    by (simp add: completes_cleanly_def always_clean_def clean_attempt_def)
  have block: "InactiveFailureBlock (reconcilerHandler least_genesis_tester)
                 = Some \<lparr>Index = 1000, Hash = ''b1000''\<rparr>"
    and genesis: "Index (genesisBlock least_genesis_tester) = - 9223372036854775808"
    by (simp_all add: least_genesis_tester_def example_tester_def)
  from clean_search_exhausts [OF clean, of least_genesis_tester
      "\<lparr>Index = 1000, Hash = ''b1000''\<rparr>"] block
  have "\<exists>fuel x y. snd (FindMissingOps fuel least_genesis_tester always_clean)
                      = CouldNotFind (NextWindowErr x y)"
    by blast
  with clean genesis show ?thesis by blast
qed

text \<open>
  Windows of another width are not ones \<open>FindMissingOps\<close> passes. On them the search of
  clean attempts still ends whenever the genesis index is above the least \<open>int64\<close> (lemma
  \<open>search_exhausts\<close>); with the least genesis index, a window whose end is one above an
  even start keeps that shape under every wrap-around, and the search goes on for ever.
\<close>

lemma sint_succ_even:
  assumes "even (x :: int64)"
  shows "sint (x + 1) = sint x + 1"
proof -
  from assms have "even (sint x)"
    using bit_sint_iff [of x 0] by (simp add: bit_0)
  then have "sint x \<noteq> 2 ^ 63 - 1" by auto
  with sint_lt [of x] sint_ge [of x] have "signed_take_bit 63 (sint x + 1) = sint x + 1"
    by (intro signed_take_bit_int_eq_self) auto
  then show ?thesis by (simp add: sint_word_ariths)
qed

lemma search_diverges:
  "even s \<Longrightarrow>
     snd (recursiveOpSearch fuel least_genesis_tester always_clean n ac s (s + 1)) = None"
proof (induction fuel arbitrary: n s)
  case 0
  then show ?case by simp
next
  case (Suc fuel)
  let ?g = "Index (genesisBlock least_genesis_tester)"
  have clean: "completes_cleanly (always_clean n)"
    by (simp add: completes_cleanly_def always_clean_def clean_attempt_def)
  have g: "sint ?g = - (2 ^ 63)"
    by (simp add: least_genesis_tester_def)
  from Suc.prems have ev: "even (s - 250)" by simp
  have e': "s + 1 - 250 = (s - 250) + 1" by simp
  have "\<not> sint (s - 250) < sint ?g"
    using sint_ge [of "s - 250"] by (simp add: g)
  then have newStart: "(if sint (s - 250) < sint ?g then ?g else s - 250) = s - 250"
    by (simp only: if_False)
  have further: "\<not> sint (s + 1 - 250) \<le> sint (s - 250)"
    unfolding e' sint_succ_even [OF ev] by simp
  have "snd (recursiveOpSearch (Suc fuel) least_genesis_tester always_clean n ac s (s + 1))
      = snd (recursiveOpSearch fuel least_genesis_tester always_clean (Suc n) ac
               (s - 250) (s + 1 - 250))"
    unfolding clean_step [of always_clean n, OF clean] newStart using further by (simp only: if_False)
  also have "\<dots> = None"
    unfolding e' by (rule Suc.IH [OF ev])
  finally show ?case .
qed

section \<open>Ephemeral storage and temporary directories\<close>

text \<open>
  \<open>stays_within\<close> bounds the running count after every prefix of a trace, and splits over
  the concatenation of the steps of a call and of the call nested in it.
\<close>

lemma stays_within_start: "stays_within d hi c tr \<Longrightarrow> 0 \<le> c \<and> c \<le> hi"
  by (cases tr) simp_all

lemma stays_within_append:
  "stays_within d hi c (a @ b)
     \<longleftrightarrow> stays_within d hi c a \<and> stays_within d hi (c + sum_list (map d a)) b"
  by (induction a arbitrary: c) (auto simp: add.assoc dest: stays_within_start)

lemma stays_within_prefix:
  "stays_within d hi c tr \<Longrightarrow> prefix p tr \<Longrightarrow>
     0 \<le> c + sum_list (map d p) \<and> c + sum_list (map d p) \<le> hi"
proof (induction tr arbitrary: c p)
  case Nil
  then show ?case by simp
next
  case (Cons ev tr)
  show ?case
  proof (cases p)
    case Nil
    with Cons.prems show ?thesis by simp
  next
    case (Cons ev' p')
    with Cons.prems have "ev' = ev" "prefix p' tr" "stays_within d hi (c + d ev) tr"
      by simp_all
    from Cons.IH [OF this(3,2)] show ?thesis
      by (simp add: \<open>p = ev' # p'\<close> \<open>ev' = ev\<close> add.assoc)
  qed
qed

lemma storage_invariant:
  "recursiveOpSearch fuel t w n ac s e = (tr, res) \<Longrightarrow>
     stays_within storage_delta 1 0 tr \<and>
     (open_storages tr = 0 \<or>
      open_storages tr = 1 \<and> (\<exists>err. res = Some (Inl (Wrapf err ''unable to close database'')))) \<and>
     (res \<noteq> None \<longrightarrow> temp_dirs tr = 0)"
proof (induction fuel arbitrary: n s e tr res)
  case 0
  then show ?case by (simp add: open_storages_def temp_dirs_def)
next
  case (Suc fuel)
  from Suc.prems show ?case
    by (auto simp: Let_def open_storages_def temp_dirs_def stays_within_append
        split: option.splits if_splits prod.splits dest!: Suc.IH)
qed

text \<open>
  Claim C8, amended. At every instant of a search at most one ephemeral storage instance
  is open: a call closes its instance before it calls itself for the next window and
  before it returns, except that a call whose \<open>Close\<close> fails returns that error at once,
  without recursing. When the search has returned, every temporary directory has been
  removed; a directory is removed when its call returns, after the calls nested in it.
\<close>

theorem one_storage_open_at_a_time:
  "(\<forall>p. prefix p (fst (recursiveOpSearch fuel t w n ac s e)) \<longrightarrow>
        0 \<le> open_storages p \<and> open_storages p \<le> 1) \<and>
   (\<forall>res. snd (recursiveOpSearch fuel t w n ac s e) = Some res \<longrightarrow>
        temp_dirs (fst (recursiveOpSearch fuel t w n ac s e)) = 0 \<and>
        (open_storages (fst (recursiveOpSearch fuel t w n ac s e)) = 0 \<or>
         (\<exists>err. res = Inl (Wrapf err ''unable to close database''))))"
proof -
  obtain tr r where run: "recursiveOpSearch fuel t w n ac s e = (tr, r)"
    by (cases "recursiveOpSearch fuel t w n ac s e")
  note inv = storage_invariant [OF run]
  have "0 \<le> open_storages p \<and> open_storages p \<le> 1" if "prefix p tr" for p
    using stays_within_prefix [of storage_delta 1 0 tr p] inv that
    by (simp add: open_storages_def)
  with inv show ?thesis
    by (auto simp: run)
qed

theorem one_storage_open_at_a_time_witness:
  "open_storages (take 3 (fst (recursiveOpSearch 5 example_tester mismatch_in_second 0
                                 (Some example_account) 750 1000))) \<le> 1 \<and>
   temp_dirs (fst (recursiveOpSearch 5 example_tester mismatch_in_second 0
                     (Some example_account) 750 1000)) = 0"
proof -
  have "snd (recursiveOpSearch 5 example_tester mismatch_in_second 0
               (Some example_account) 750 1000) = Some (Inr \<lparr>Index = 612, Hash = ''b612''\<rparr>)"
    by (simp add: eval_nat_numeral mismatch_in_second_def mismatch_attempt_def
        clean_attempt_def example_tester_def InactiveFailureLookbackWindow_def)
  with one_storage_open_at_a_time [of 5 example_tester mismatch_in_second 0
      "Some example_account" 750 1000]
  show ?thesis by (simp add: take_is_prefix)
qed

text \<open>
  Claim C8 as stated fails for the temporary directory: \<open>defer utils.RemoveTempDir\<close> runs
  when the call returns, which is after the recursive call. In a search of two windows the
  second call creates its directory while the first one still exists.
\<close>

theorem temp_dir_kept_across_recursion:
  "\<not> (\<forall>p. prefix p (fst (recursiveOpSearch 2 example_tester always_clean 0
                         (Some example_account) 750 1000)) \<longrightarrow> temp_dirs p \<le> 1)"
proof
  assume released: "\<forall>p. prefix p (fst (recursiveOpSearch 2 example_tester always_clean 0
                         (Some example_account) 750 1000)) \<longrightarrow> temp_dirs p \<le> 1"
  have "temp_dirs (take 9 (fst (recursiveOpSearch 2 example_tester always_clean 0
                         (Some example_account) 750 1000))) = 2"
    by (simp add: eval_nat_numeral always_clean_def clean_attempt_def example_tester_def
        InactiveFailureLookbackWindow_def temp_dirs_def)
  with released show False
    by (metis take_is_prefix numeral_le_one_iff semiring_norm(69))
qed

section \<open>Bootstrapping balances\<close>



end
